theory Spec2Isabelle
  imports Main "HOL-Library.Word" "HOL-Library.List_Lexorder"
begin

section \<open>Data model of \<^verbatim>\<open>src/App.tsx\<close>\<close>

text \<open>
  A JavaScript string is a sequence of 16-bit code units. Two strings are equal when
  their code units are, and \<^verbatim>\<open><\<close> on strings compares code units lexicographically,
  which is the order of lists over the unsigned order of words.
\<close>

type_synonym js_string = "16 word list"

text \<open>A source literal such as \<^verbatim>\<open>'ADD'\<close>, given by its ASCII characters.\<close>

definition js :: "string \<Rightarrow> js_string" where
  "js s = map of_char s"

text \<open>
  \<^verbatim>\<open>interface Form { content: string }\<close> (lines 13 to 15) comes first, so that the
  plain name \<open>content\<close> below is the field of a note.
\<close>

record Form =
  content :: js_string

text \<open>
  \<^verbatim>\<open>interface Note\<close> (lines 6 to 11). The field \<^verbatim>\<open>id\<close> is named \<open>id_note\<close>, since
  \<open>id\<close> is the identity function of HOL.
\<close>

record Note =
  id_note :: js_string
  content :: js_string
  createdAt :: js_string
  updatedAt :: js_string

text \<open>\<^verbatim>\<open>interface Modal\<close> (lines 17 to 20); \<^verbatim>\<open>null\<close> is \<open>None\<close>.\<close>

record Modal =
  type :: js_string
  data :: "Note option"

text \<open>What the code can throw: both are native JavaScript errors.\<close>

datatype error = TypeError | SyntaxError

section \<open>The note store (lines 63 to 92)\<close>

text \<open>
  \<^verbatim>\<open>addNote\<close> reads two values from its environment, \<^verbatim>\<open>uuidv4()\<close> and
  \<^verbatim>\<open>new Date().toISOString()\<close>; they are the first two arguments here. The last argument
  is the \<^verbatim>\<open>notes\<close> of the current render, the result is the argument of \<^verbatim>\<open>setNotes\<close>.
\<close>

definition addNote :: "js_string \<Rightarrow> js_string \<Rightarrow> js_string \<Rightarrow> Note list \<Rightarrow> Note list" where
  "addNote uuid date c notes =
     (let newNote = \<lparr>id_note = uuid, content = c, createdAt = date, updatedAt = date\<rparr>
      in newNote # notes)"

text \<open>
  \<^verbatim>\<open>editNote\<close>: \<^verbatim>\<open>notes.find\<close> returns the first note with the id, or \<^verbatim>\<open>undefined\<close>;
  the assignment \<^verbatim>\<open>noteToEdit!.content = content\<close> on \<^verbatim>\<open>undefined\<close> throws a TypeError,
  before anything is written. Otherwise the note found is updated in place (the array
  elements are separate objects, so no other note changes), every note with this id is
  filtered out, and the updated note is put in front. \<open>date\<close> is the clock reading of
  line 80.
\<close>

definition editNote :: "js_string \<Rightarrow> js_string \<Rightarrow> js_string \<Rightarrow> Note list \<Rightarrow> error + Note list" where
  "editNote i c date notes =
     (case find (\<lambda>note. id_note note = i) notes of
        None \<Rightarrow> Inl TypeError
      | Some noteToEdit \<Rightarrow>
          (let edited = noteToEdit\<lparr>content := c, updatedAt := date\<rparr>;
               newNotes = filter (\<lambda>note. id_note note \<noteq> i) notes
           in Inr (edited # newNotes)))"

definition deleteNote :: "js_string \<Rightarrow> Note list \<Rightarrow> Note list" where
  "deleteNote i notes = filter (\<lambda>note. id_note note \<noteq> i) notes"

subsection \<open>Sequences of store operations\<close>

text \<open>
  One call of the store, with the values the environment hands to it: the generated id
  and the clock reading for an add, the clock reading for an edit.
\<close>

datatype op =
    Add js_string js_string js_string
  | Edit js_string js_string js_string
  | Delete js_string

fun apply_op :: "op \<Rightarrow> Note list \<Rightarrow> error + Note list" where
  "apply_op (Add uuid date c) notes = Inr (addNote uuid date c notes)"
| "apply_op (Edit i c date) notes = editNote i c date notes"
| "apply_op (Delete i) notes = Inr (deleteNote i notes)"

text \<open>
  The collection after a call: when the call throws, \<^verbatim>\<open>setNotes\<close> was not reached and
  the collection is the one before.
\<close>

definition after :: "op \<Rightarrow> Note list \<Rightarrow> Note list" where
  "after x notes = (case apply_op x notes of Inl e \<Rightarrow> notes | Inr newNotes \<Rightarrow> newNotes)"

fun run :: "op list \<Rightarrow> Note list \<Rightarrow> Note list" where
  "run [] notes = notes"
| "run (x # xs) notes = run xs (after x notes)"

text \<open>Every id generated along the sequence is new to the collection it is added to.\<close>

fun fresh_op :: "op \<Rightarrow> Note list \<Rightarrow> bool" where
  "fresh_op (Add uuid date c) notes = (uuid \<notin> set (map id_note notes))"
| "fresh_op (Edit i c date) notes = True"
| "fresh_op (Delete i) notes = True"

fun fresh :: "op list \<Rightarrow> Note list \<Rightarrow> bool" where
  "fresh [] notes = True"
| "fresh (x # xs) notes = (fresh_op x notes \<and> fresh xs (after x notes))"

section \<open>The component state and its handlers (lines 22 to 61, 94 to 225)\<close>

text \<open>
  The state of \<^verbatim>\<open>App\<close>: the three \<^verbatim>\<open>useState\<close> cells and the values held by \<^verbatim>\<open>useForm\<close>.
  The form values outlive the form's being shown: \<^verbatim>\<open>handleEdit\<close> writes the content
  with \<^verbatim>\<open>setValue\<close> while the view modal is up, and the edit form that is rendered next
  shows it.
\<close>

record App =
  "notes" :: "Note list"
  modal :: Modal
  markdownMode :: bool
  form :: Form

definition setNotes :: "Note list \<Rightarrow> App \<Rightarrow> App" where
  "setNotes newNotes s = s\<lparr>notes := newNotes\<rparr>"

definition setModal :: "Modal \<Rightarrow> App \<Rightarrow> App" where
  "setModal m s = s\<lparr>modal := m\<rparr>"

definition setMarkdownMode :: "bool \<Rightarrow> App \<Rightarrow> App" where
  "setMarkdownMode b s = s\<lparr>markdownMode := b\<rparr>"

text \<open>\<^verbatim>\<open>setValue('content', v)\<close>.\<close>

definition setValue :: "js_string \<Rightarrow> App \<Rightarrow> App" where
  "setValue v s = s\<lparr>form := \<lparr>Form.content = v\<rparr>\<rparr>"

text \<open>The literal \<^verbatim>\<open>{ type: '', data: null }\<close>.\<close>

definition closed :: Modal where
  "closed = \<lparr>type = js '''', data = None\<rparr>"

text \<open>
  \<^verbatim>\<open>handleForm\<close> (lines 38 to 47). In the else branch \<^verbatim>\<open>modal.data?.id\<close> is
  \<^verbatim>\<open>undefined\<close> when \<^verbatim>\<open>modal.data\<close> is \<^verbatim>\<open>null\<close>; no note has that id, so \<^verbatim>\<open>editNote\<close>
  throws as it does for any id it does not find. An exception leaves the handler before
  \<^verbatim>\<open>setValue\<close> and \<^verbatim>\<open>setModal\<close> run.
\<close>

definition handleForm :: "js_string \<Rightarrow> js_string \<Rightarrow> Form \<Rightarrow> App \<Rightarrow> error + App" where
  "handleForm uuid date d s =
     (case (if type (modal s) = js ''ADD''
            then Inr (addNote uuid date (Form.content d) (notes s))
            else (case data (modal s) of
                    None \<Rightarrow> Inl TypeError
                  | Some n \<Rightarrow> editNote (id_note n) (Form.content d) date (notes s)))
      of Inl e \<Rightarrow> Inl e
       | Inr newNotes \<Rightarrow> Inr (setModal closed (setValue (js '''') (setNotes newNotes s))))"

definition handleAdd :: "App \<Rightarrow> App" where
  "handleAdd s = setModal \<lparr>type = js ''ADD'', data = None\<rparr> s"

definition handleEdit :: "Note \<Rightarrow> App \<Rightarrow> App" where
  "handleEdit d s = setModal \<lparr>type = js ''EDIT'', data = Some d\<rparr> (setValue (content d) s)"

text \<open>
  \<^verbatim>\<open>handleDelete\<close> is called with \<^verbatim>\<open>modal.data?.id\<close>, which is \<^verbatim>\<open>undefined\<close> (\<open>None\<close>)
  when there is no note attached; the filter of \<^verbatim>\<open>deleteNote\<close> then keeps every note.
\<close>

definition handleDelete :: "js_string option \<Rightarrow> App \<Rightarrow> App" where
  "handleDelete i s =
     setModal closed
       (setNotes (case i of None \<Rightarrow> notes s | Some i' \<Rightarrow> deleteNote i' (notes s)) s)"

text \<open>
  The events of the rendered tree, by the line of their handler: a card (103), the add
  button (127), the overlay behind either modal (136, 174), Cancel (144), typing into the
  registered textarea (158), submitting the form (153, with the id and the clock reading
  the store will draw), the markdown checkbox (186), Close (193), Edit (210), Delete (216).
\<close>

datatype event =
    ClickCard Note
  | ClickAdd
  | ClickOverlay
  | ClickCancel
  | Input js_string
  | Submit js_string js_string
  | ToggleMarkdown bool
  | ClickClose
  | ClickEdit
  | ClickDelete

text \<open>
  Which modal the JSX renders (lines 133 and 171), and so which events can occur. The
  textarea is \<^verbatim>\<open>required\<close>: the browser does not submit the form while it is empty.
\<close>

definition form_shown :: "App \<Rightarrow> bool" where
  "form_shown s = (type (modal s) = js ''ADD'' \<or> type (modal s) = js ''EDIT'')"

definition view_shown :: "App \<Rightarrow> bool" where
  "view_shown s = (type (modal s) = js ''VIEW'')"

fun rendered :: "App \<Rightarrow> event \<Rightarrow> bool" where
  "rendered s (ClickCard note) = (note \<in> set (notes s))"
| "rendered s ClickAdd = True"
| "rendered s ClickOverlay = (form_shown s \<or> view_shown s)"
| "rendered s ClickCancel = form_shown s"
| "rendered s (Input v) = form_shown s"
| "rendered s (Submit uuid date) = (form_shown s \<and> Form.content (form s) \<noteq> js '''')"
| "rendered s (ToggleMarkdown b) = view_shown s"
| "rendered s ClickClose = view_shown s"
| "rendered s ClickEdit = view_shown s"
| "rendered s ClickDelete = view_shown s"

text \<open>
  The handler of each event. \<^verbatim>\<open>handleEdit(modal.data!)\<close> reads \<^verbatim>\<open>data.content\<close> first,
  which throws on \<^verbatim>\<open>null\<close>. \<^verbatim>\<open>handleSubmit\<close> passes the current form values on.
\<close>

fun handler :: "event \<Rightarrow> App \<Rightarrow> error + App" where
  "handler (ClickCard note) s = Inr (setModal \<lparr>type = js ''VIEW'', data = Some note\<rparr> s)"
| "handler ClickAdd s = Inr (handleAdd s)"
| "handler ClickOverlay s = Inr (setModal closed s)"
| "handler ClickCancel s = Inr (setValue (js '''') (setModal closed s))"
| "handler (Input v) s = Inr (setValue v s)"
| "handler (Submit uuid date) s = handleForm uuid date (form s) s"
| "handler (ToggleMarkdown b) s = Inr (setMarkdownMode b s)"
| "handler ClickClose s = Inr (setModal closed s)"
| "handler ClickEdit s =
     (case data (modal s) of None \<Rightarrow> Inl TypeError | Some d \<Rightarrow> Inr (handleEdit d s))"
| "handler ClickDelete s = Inr (handleDelete (map_option id_note (data (modal s))) s)"

text \<open>
  The state after an event. Every throw above comes before the first state setter of
  its handler, so a handler that throws leaves the state as it was.
\<close>

definition dispatch :: "event \<Rightarrow> App \<Rightarrow> App" where
  "dispatch ev s = (case handler ev s of Inl e \<Rightarrow> s | Inr s' \<Rightarrow> s')"

text \<open>
  The first render (lines 23 to 26): the notes read from storage, no modal, markdown
  view on, an empty form.
\<close>

definition initial :: "Note list \<Rightarrow> App" where
  "initial ns =
     \<lparr>notes = ns, modal = closed, markdownMode = True, form = \<lparr>Form.content = js ''''\<rparr>\<rparr>"

text \<open>
  A run of the component: the events one after the other, each on an element that the
  state before it renders. \<open>None\<close> when an event is not possible where it stands.
\<close>

fun events :: "event list \<Rightarrow> App \<Rightarrow> App option" where
  "events [] s = Some s"
| "events (ev # evs) s = (if rendered s ev then events evs (dispatch ev s) else None)"

definition modal_ok :: "Modal \<Rightarrow> bool" where
  "modal_ok m =
     (type m \<in> {js '''', js ''ADD'', js ''EDIT'', js ''VIEW''}
      \<and> (data m \<noteq> None) = (type m = js ''EDIT'' \<or> type m = js ''VIEW''))"

section \<open>Persistence (lines 23 and 28 to 30)\<close>

subsection \<open>\<^verbatim>\<open>JSON.stringify\<close> on a \<^verbatim>\<open>Note[]\<close>\<close>

text \<open>
  The two library functions of lines 23 and 29 are ECMAScript built-ins; they are
  modelled after ECMA-262 (\<^verbatim>\<open>JSON.stringify\<close>, \<^verbatim>\<open>JSON.parse\<close>) and the JSON grammar of
  ECMA-404, on code units.
\<close>

definition is_high_surrogate :: "16 word \<Rightarrow> bool" where
  "is_high_surrogate c = (0xD800 \<le> c \<and> c \<le> 0xDBFF)"

definition is_low_surrogate :: "16 word \<Rightarrow> bool" where
  "is_low_surrogate c = (0xDC00 \<le> c \<and> c \<le> 0xDFFF)"

text \<open>A hexadecimal digit, lower case, for a value below 16.\<close>

definition hex_digit :: "nat \<Rightarrow> 16 word" where
  "hex_digit n = (if n < 10 then 0x30 + of_nat n else 0x61 + of_nat (n - 10))"

text \<open>\<^verbatim>\<open>UnicodeEscape\<close>: backslash, \<^verbatim>\<open>u\<close> and four hexadecimal digits.\<close>

definition UnicodeEscape :: "16 word \<Rightarrow> js_string" where
  "UnicodeEscape c =
     [0x5C, 0x75, hex_digit (unat c div 4096), hex_digit (unat c div 256 mod 16),
      hex_digit (unat c div 16 mod 16), hex_digit (unat c mod 16)]"

text \<open>
  One code unit that is not part of a surrogate pair, as \<^verbatim>\<open>QuoteJSONString\<close> writes it:
  the two-character escapes for backspace, tab, line feed, form feed, carriage return,
  the double quote and the backslash; a \<^verbatim>\<open>\u\<close> escape for the other control characters
  and for a lone surrogate; the code unit itself otherwise.
\<close>

definition quote_unit :: "16 word \<Rightarrow> js_string" where
  "quote_unit c =
     (if c = 0x08 then [0x5C, 0x62]
      else if c = 0x09 then [0x5C, 0x74]
      else if c = 0x0A then [0x5C, 0x6E]
      else if c = 0x0C then [0x5C, 0x66]
      else if c = 0x0D then [0x5C, 0x72]
      else if c = 0x22 then [0x5C, 0x22]
      else if c = 0x5C then [0x5C, 0x5C]
      else if c < 0x20 \<or> is_high_surrogate c \<or> is_low_surrogate c then UnicodeEscape c
      else [c])"

text \<open>
  The string is read by code points: a high surrogate followed by a low one is one code
  point above U+FFFF and is written as it is.
\<close>

fun quote_units :: "js_string \<Rightarrow> js_string" where
  "quote_units [] = []"
| "quote_units [c] = quote_unit c"
| "quote_units (c # d # cs) =
     (if is_high_surrogate c \<and> is_low_surrogate d then c # d # quote_units cs
      else quote_unit c @ quote_units (d # cs))"

definition QuoteJSONString :: "js_string \<Rightarrow> js_string" where
  "QuoteJSONString s = 0x22 # quote_units s @ [0x22]"

text \<open>The items of an array or an object, separated by commas, with no white space.\<close>

fun join :: "js_string list \<Rightarrow> js_string" where
  "join [] = []"
| "join [x] = x"
| "join (x # y # ys) = x @ 0x2C # join (y # ys)"

definition SerializeJSONArray :: "js_string list \<Rightarrow> js_string" where
  "SerializeJSONArray items = 0x5B # join items @ [0x5D]"

definition SerializeJSONObject :: "(js_string \<times> js_string) list \<Rightarrow> js_string" where
  "SerializeJSONObject members =
     0x7B # join (map (\<lambda>(k, v). QuoteJSONString k @ 0x3A # v) members) @ [0x7D]"

text \<open>
  A note object has its four properties in the order of the object literal of lines 66
  to 71, and each holds a string.
\<close>

definition stringify_note :: "Note \<Rightarrow> js_string" where
  "stringify_note n =
     SerializeJSONObject
       [(js ''id'', QuoteJSONString (id_note n)),
        (js ''content'', QuoteJSONString (content n)),
        (js ''createdAt'', QuoteJSONString (createdAt n)),
        (js ''updatedAt'', QuoteJSONString (updatedAt n))]"

definition JSON_stringify :: "Note list \<Rightarrow> js_string" where
  "JSON_stringify ns = SerializeJSONArray (map stringify_note ns)"

subsection \<open>\<^verbatim>\<open>JSON.parse\<close>\<close>

text \<open>
  A parsed value. A number keeps the exact decimal value of its literal, mantissa times
  ten to the exponent. An object keeps its members in the order of the text.
\<close>

datatype json =
    JNull
  | JBool bool
  | JNumber int int
  | JString js_string
  | JArray "json list"
  | JObject "(js_string \<times> json) list"

datatype token =
    TLBrace | TRBrace | TLBracket | TRBracket | TColon | TComma
  | TString js_string | TNumber int int | TTrue | TFalse | TNull

definition is_ws :: "16 word \<Rightarrow> bool" where
  "is_ws c = (c = 0x20 \<or> c = 0x09 \<or> c = 0x0A \<or> c = 0x0D)"

definition is_digit :: "16 word \<Rightarrow> bool" where
  "is_digit c = (0x30 \<le> c \<and> c \<le> 0x39)"

definition hex_value :: "16 word \<Rightarrow> nat option" where
  "hex_value c =
     (if 0x30 \<le> c \<and> c \<le> 0x39 then Some (unat c - 0x30)
      else if 0x61 \<le> c \<and> c \<le> 0x66 then Some (unat c - 0x61 + 10)
      else if 0x41 \<le> c \<and> c \<le> 0x46 then Some (unat c - 0x41 + 10)
      else None)"

definition hex4 :: "16 word \<Rightarrow> 16 word \<Rightarrow> 16 word \<Rightarrow> 16 word \<Rightarrow> 16 word option" where
  "hex4 a b c d =
     (case (hex_value a, hex_value b, hex_value c, hex_value d) of
        (Some x, Some y, Some z, Some w) \<Rightarrow> Some (of_nat (((x * 16 + y) * 16 + z) * 16 + w))
      | _ \<Rightarrow> None)"

text \<open>The character after a backslash, other than \<^verbatim>\<open>u\<close>.\<close>

definition unescape :: "16 word \<Rightarrow> 16 word option" where
  "unescape e =
     (if e = 0x22 then Some 0x22
      else if e = 0x5C then Some 0x5C
      else if e = 0x2F then Some 0x2F
      else if e = 0x62 then Some 0x08
      else if e = 0x66 then Some 0x0C
      else if e = 0x6E then Some 0x0A
      else if e = 0x72 then Some 0x0D
      else if e = 0x74 then Some 0x09
      else None)"

text \<open>
  The characters of a string literal after its opening quote, up to the closing quote:
  the string denoted and the rest of the text. A control character below U+0020 may not
  stand unescaped.
\<close>

fun lex_chars :: "js_string \<Rightarrow> (js_string \<times> js_string) option" where
  "lex_chars [] = None"
| "lex_chars (c # cs) =
     (if c = 0x22 then Some ([], cs)
      else if c = 0x5C then
        (case cs of
           [] \<Rightarrow> None
         | e # es \<Rightarrow>
             if e = 0x75 then
               (case es of
                  h1 # h2 # h3 # h4 # rest \<Rightarrow>
                    (case hex4 h1 h2 h3 h4 of
                       None \<Rightarrow> None
                     | Some u \<Rightarrow> map_option (\<lambda>(s, r). (u # s, r)) (lex_chars rest))
                | _ \<Rightarrow> None)
             else
               (case unescape e of
                  None \<Rightarrow> None
                | Some u \<Rightarrow> map_option (\<lambda>(s, r). (u # s, r)) (lex_chars es)))
      else if c < 0x20 then None
      else map_option (\<lambda>(s, r). (c # s, r)) (lex_chars cs))"

definition digits_value :: "js_string \<Rightarrow> nat" where
  "digits_value ds = foldl (\<lambda>a d. 10 * a + (unat d - 0x30)) 0 ds"

text \<open>The optional fraction of a number: a point and at least one digit.\<close>

definition lex_fraction :: "js_string \<Rightarrow> (js_string \<times> js_string) option" where
  "lex_fraction cs =
     (case cs of
        [] \<Rightarrow> Some ([], cs)
      | c # r \<Rightarrow>
          if c = 0x2E then
            (if takeWhile is_digit r = [] then None
             else Some (takeWhile is_digit r, dropWhile is_digit r))
          else Some ([], cs))"

text \<open>The optional exponent: \<^verbatim>\<open>e\<close> or \<^verbatim>\<open>E\<close>, an optional sign, at least one digit.\<close>

definition lex_exponent :: "js_string \<Rightarrow> (int \<times> js_string) option" where
  "lex_exponent cs =
     (case cs of
        [] \<Rightarrow> Some (0, cs)
      | c # r \<Rightarrow>
          if c = 0x65 \<or> c = 0x45 then
            (let (sgn, r') =
                   (case r of
                      [] \<Rightarrow> (1, r)
                    | s # r2 \<Rightarrow> if s = 0x2B then (1, r2) else if s = 0x2D then (- 1, r2) else (1, r))
             in if takeWhile is_digit r' = [] then None
                else Some (sgn * int (digits_value (takeWhile is_digit r')), dropWhile is_digit r'))
          else Some (0, cs))"

text \<open>
  A number literal: an optional minus, then \<^verbatim>\<open>0\<close> or a digit from 1 to 9 followed by
  digits, then the fraction and the exponent. The result is the mantissa, the exponent
  of ten and the rest of the text.
\<close>

definition lex_number :: "js_string \<Rightarrow> (int \<times> int \<times> js_string) option" where
  "lex_number cs =
     (let (sgn, cs1) = (case cs of [] \<Rightarrow> (1, cs) | c # r \<Rightarrow> if c = 0x2D then (- 1, r) else (1, cs))
      in case cs1 of
           [] \<Rightarrow> None
         | d # r \<Rightarrow>
             if \<not> is_digit d then None
             else
               (let (ip, cs2) =
                      (if d = 0x30 then ([d], r)
                       else (takeWhile is_digit cs1, dropWhile is_digit cs1))
                in case lex_fraction cs2 of
                     None \<Rightarrow> None
                   | Some (fp, cs3) \<Rightarrow>
                       (case lex_exponent cs3 of
                          None \<Rightarrow> None
                        | Some (ex, cs4) \<Rightarrow>
                            Some (sgn * int (digits_value (ip @ fp)), ex - int (length fp), cs4))))"

text \<open>
  Each of the three readers above consumes at least the character it starts with; the
  lexer below terminates for that reason.
\<close>

lemma lex_chars_shorter: "lex_chars cs = Some (s, r) \<Longrightarrow> length r < length cs"
proof (induction cs arbitrary: s r rule: lex_chars.induct)
  case 1
  then show ?case by simp
next
  case (2 c cs)
  show ?case
  proof (cases "c = 0x22")
    case True
    with "2.prems" show ?thesis by simp
  next
    case quote: False
    show ?thesis
    proof (cases "c = 0x5C")
      case False
      with quote "2.prems" obtain s' where "lex_chars cs = Some (s', r)"
        by (auto split: if_splits)
      from "2.IH"(3) [OF quote False _ this] quote False "2.prems" show ?thesis
        by (auto split: if_splits)
    next
      case True
      with quote "2.prems" obtain e es where cs: "cs = e # es"
        by (cases cs) auto
      show ?thesis
      proof (cases "e = 0x75")
        case False
        with quote True cs "2.prems" obtain u s' where
          "unescape e = Some u" "lex_chars es = Some (s', r)"
          by (auto split: option.splits)
        from "2.IH"(2) [OF quote True cs False this] cs show ?thesis by simp
      next
        case u: True
        with quote True cs "2.prems" obtain h1 h2 h3 h4 rest v s' where
          es: "es = h1 # h2 # h3 # h4 # rest" and h: "hex4 h1 h2 h3 h4 = Some v"
          and l: "lex_chars rest = Some (s', r)"
          by (auto split: list.splits option.splits)
        from "2.IH"(1) [OF quote True cs u es refl refl refl h l] cs es show ?thesis by simp
      qed
    qed
  qed
qed

lemma lex_fraction_shorter: "lex_fraction cs = Some (fp, r) \<Longrightarrow> length r \<le> length cs"
  by (auto simp: lex_fraction_def le_SucI [OF length_dropWhile_le] split: list.splits if_splits)

lemma lex_exponent_shorter: "lex_exponent cs = Some (ex, r) \<Longrightarrow> length r \<le> length cs"
proof (cases cs)
  case Nil
  then show "lex_exponent cs = Some (ex, r) \<Longrightarrow> ?thesis" by (simp add: lex_exponent_def)
next
  case (Cons c t)
  assume a: "lex_exponent cs = Some (ex, r)"
  show ?thesis
  proof (cases "c = 0x65 \<or> c = 0x45")
    case False
    with a Cons show ?thesis by (auto simp: lex_exponent_def)
  next
    case True
    with a Cons obtain r' where r': "r = dropWhile is_digit r'" "length r' \<le> length t"
      by (auto simp: lex_exponent_def Let_def split: list.splits if_splits prod.splits)
    have "length (dropWhile is_digit r') \<le> length r'" by (rule length_dropWhile_le)
    with r' Cons show ?thesis by simp
  qed
qed

lemma lex_number_shorter: "lex_number cs = Some (m, e, r) \<Longrightarrow> length r < length cs"
proof -
  assume a: "lex_number cs = Some (m, e, r)"
  define cs1 where "cs1 = (case cs of [] \<Rightarrow> cs | c # t \<Rightarrow> if c = 0x2D then t else cs)"
  have le1: "length cs1 \<le> length cs" by (auto simp: cs1_def split: list.splits)
  from a obtain d t where cs1: "cs1 = d # t" and d: "is_digit d"
    by (cases cs1) (auto simp: lex_number_def cs1_def Let_def split: list.splits if_splits)
  define cs2 where "cs2 = (if d = 0x30 then t else dropWhile is_digit cs1)"
  have "length (dropWhile is_digit cs1) < length cs1"
    using cs1 d length_dropWhile_le [of is_digit t] by simp
  then have lt2: "length cs2 < length cs1" by (simp add: cs2_def cs1)
  from a cs1 d obtain fp cs3 ex where
    f: "lex_fraction cs2 = Some (fp, cs3)" and x: "lex_exponent cs3 = Some (ex, r)"
    by (auto simp: lex_number_def cs1_def cs2_def Let_def
        split: list.splits if_splits option.splits)
  from lex_fraction_shorter [OF f] lex_exponent_shorter [OF x] lt2 le1 show ?thesis by simp
qed


text \<open>
  The tokens of a text, or \<open>None\<close> where no token starts. White space between tokens is
  skipped.
\<close>

function lex :: "js_string \<Rightarrow> token list option" where
  "lex [] = Some []"
| "lex (c # cs) =
     (if is_ws c then lex cs
      else if c = 0x7B then map_option (Cons TLBrace) (lex cs)
      else if c = 0x7D then map_option (Cons TRBrace) (lex cs)
      else if c = 0x5B then map_option (Cons TLBracket) (lex cs)
      else if c = 0x5D then map_option (Cons TRBracket) (lex cs)
      else if c = 0x3A then map_option (Cons TColon) (lex cs)
      else if c = 0x2C then map_option (Cons TComma) (lex cs)
      else if c = 0x22 then
        (case lex_chars cs of
           None \<Rightarrow> None
         | Some (s, rest) \<Rightarrow> map_option (Cons (TString s)) (lex rest))
      else if c = 0x2D \<or> is_digit c then
        (case lex_number (c # cs) of
           None \<Rightarrow> None
         | Some (m, e, rest) \<Rightarrow> map_option (Cons (TNumber m e)) (lex rest))
      else if take 4 (c # cs) = js ''true'' then map_option (Cons TTrue) (lex (drop 3 cs))
      else if take 5 (c # cs) = js ''false'' then map_option (Cons TFalse) (lex (drop 4 cs))
      else if take 4 (c # cs) = js ''null'' then map_option (Cons TNull) (lex (drop 3 cs))
      else None)"
  by pat_completeness auto
termination
proof (relation "measure length")
  show "wf (measure length)" by simp
qed (auto dest: lex_chars_shorter lex_number_shorter)

text \<open>
  The parser runs over the tokens with a stack of the arrays and objects that are open:
  the elements read so far, and for an object also the key whose value is being read.
  \<open>parse_value\<close> expects a value, \<open>parse_after\<close> has just read one. A text is accepted
  when one value is read, nothing is open and no token is left.
\<close>

datatype frame = InArray "json list" | InObject "(js_string \<times> json) list" js_string

fun parse_value :: "frame list \<Rightarrow> token list \<Rightarrow> json option"
  and parse_after :: "frame list \<Rightarrow> json \<Rightarrow> token list \<Rightarrow> json option" where
  "parse_value st [] = None"
| "parse_value st (t # ts) =
     (case t of
        TNull \<Rightarrow> parse_after st JNull ts
      | TTrue \<Rightarrow> parse_after st (JBool True) ts
      | TFalse \<Rightarrow> parse_after st (JBool False) ts
      | TNumber m e \<Rightarrow> parse_after st (JNumber m e) ts
      | TString s \<Rightarrow> parse_after st (JString s) ts
      | TLBracket \<Rightarrow>
          (case ts of
             TRBracket # ts' \<Rightarrow> parse_after st (JArray []) ts'
           | _ \<Rightarrow> parse_value (InArray [] # st) ts)
      | TLBrace \<Rightarrow>
          (case ts of
             TRBrace # ts' \<Rightarrow> parse_after st (JObject []) ts'
           | TString k # TColon # ts' \<Rightarrow> parse_value (InObject [] k # st) ts'
           | _ \<Rightarrow> None)
      | _ \<Rightarrow> None)"
| "parse_after [] v ts = (if ts = [] then Some v else None)"
| "parse_after (f # st) v [] = None"
| "parse_after (f # st) v (t # ts) =
     (case f of
        InArray vs \<Rightarrow>
          (case t of
             TComma \<Rightarrow> parse_value (InArray (vs @ [v]) # st) ts
           | TRBracket \<Rightarrow> parse_after st (JArray (vs @ [v])) ts
           | _ \<Rightarrow> None)
      | InObject ms k \<Rightarrow>
          (case t of
             TComma \<Rightarrow>
               (case ts of
                  TString k' # TColon # ts' \<Rightarrow> parse_value (InObject (ms @ [(k, v)]) k' # st) ts'
                | _ \<Rightarrow> None)
           | TRBrace \<Rightarrow> parse_after st (JObject (ms @ [(k, v)])) ts
           | _ \<Rightarrow> None))"

definition JSON_parse :: "js_string \<Rightarrow> error + json" where
  "JSON_parse source =
     (case lex source of
        None \<Rightarrow> Inl SyntaxError
      | Some ts \<Rightarrow> (case parse_value [] ts of None \<Rightarrow> Inl SyntaxError | Some v \<Rightarrow> Inr v))"

text \<open>
  \<^verbatim>\<open>ToBoolean\<close>, as \<^verbatim>\<open>||\<close> applies it. A number literal denotes zero when its mantissa is
  zero, or when it is so small that it rounds to zero as a double: at most \<open>2 ^ - 1075\<close>,
  half of the least positive double.
\<close>

definition number_is_zero :: "int \<Rightarrow> int \<Rightarrow> bool" where
  "number_is_zero m e = (m = 0 \<or> (e < 0 \<and> \<bar>m\<bar> * 2 ^ 1075 \<le> 10 ^ nat (- e)))"

fun ToBoolean :: "json \<Rightarrow> bool" where
  "ToBoolean JNull = False"
| "ToBoolean (JBool b) = b"
| "ToBoolean (JNumber m e) = (\<not> number_is_zero m e)"
| "ToBoolean (JString s) = (s \<noteq> [])"
| "ToBoolean (JArray vs) = True"
| "ToBoolean (JObject ms) = True"

text \<open>
  The storage slot \<^verbatim>\<open>'notes'\<close>: \<open>None\<close> while the key is absent, when \<^verbatim>\<open>getItem\<close>
  returns \<^verbatim>\<open>null\<close>. \<^verbatim>\<open>JSON.parse\<close> turns its argument into a string first, and \<^verbatim>\<open>null\<close>
  into \<^verbatim>\<open>"null"\<close>.

  \<open>load\<close> is the initializer of line 23, \<^verbatim>\<open>JSON.parse(localStorage.getItem('notes')!) || []\<close>.
  It is evaluated in the body of \<^verbatim>\<open>App\<close> with no handler around it: \<open>Inl\<close> means that
  the first render throws.
\<close>

definition load :: "js_string option \<Rightarrow> error + json" where
  "load slot =
     (case JSON_parse (case slot of None \<Rightarrow> js ''null'' | Some source \<Rightarrow> source) of
        Inl e \<Rightarrow> Inl e
      | Inr v \<Rightarrow> Inr (if ToBoolean v then v else JArray []))"

text \<open>\<open>save\<close> is the effect of lines 28 to 30: the slot after \<^verbatim>\<open>setItem\<close>.\<close>

definition save :: "Note list \<Rightarrow> js_string option" where
  "save ns = Some (JSON_stringify ns)"

text \<open>The run-time value of a \<^verbatim>\<open>Note\<close> and of a \<^verbatim>\<open>Note[]\<close>.\<close>

definition json_of_note :: "Note \<Rightarrow> json" where
  "json_of_note n =
     JObject
       [(js ''id'', JString (id_note n)),
        (js ''content'', JString (content n)),
        (js ''createdAt'', JString (createdAt n)),
        (js ''updatedAt'', JString (updatedAt n))]"

definition json_of_notes :: "Note list \<Rightarrow> json" where
  "json_of_notes ns = JArray (map json_of_note ns)"

text \<open>
  The value loaded becomes the \<^verbatim>\<open>notes\<close> of \<^verbatim>\<open>useState<Note[]>\<close> with no check. \<open>as_notes\<close>
  reads a value at that type: an array of objects whose \<^verbatim>\<open>id\<close>, \<^verbatim>\<open>content\<close>, \<^verbatim>\<open>createdAt\<close>
  and \<^verbatim>\<open>updatedAt\<close> are strings (where a key occurs twice in the text, the later member
  is the property). It is \<open>None\<close> for any other value; the typed model of the component
  says nothing about a run on such a value.
\<close>

definition property :: "js_string \<Rightarrow> (js_string \<times> json) list \<Rightarrow> json option" where
  "property k ms = map_of (rev ms) k"

fun as_string :: "json option \<Rightarrow> js_string option" where
  "as_string (Some (JString s)) = Some s"
| "as_string v = None"

fun as_note :: "json \<Rightarrow> Note option" where
  "as_note (JObject ms) =
     (case (as_string (property (js ''id'') ms), as_string (property (js ''content'') ms),
            as_string (property (js ''createdAt'') ms), as_string (property (js ''updatedAt'') ms)) of
        (Some i, Some c, Some cr, Some up) \<Rightarrow>
          Some \<lparr>id_note = i, content = c, createdAt = cr, updatedAt = up\<rparr>
      | _ \<Rightarrow> None)"
| "as_note v = None"

fun as_notes :: "json \<Rightarrow> Note list option" where
  "as_notes (JArray vs) = those (map as_note vs)"
| "as_notes v = None"

text \<open>
  The first render, from the slot: the state of the component when the value loaded is
  a \<^verbatim>\<open>Note[]\<close>, and the exception when the initializer throws.
\<close>

definition first_render :: "js_string option \<Rightarrow> error + App option" where
  "first_render slot =
     (case load slot of Inl e \<Rightarrow> Inl e | Inr v \<Rightarrow> Inr (map_option initial (as_notes v)))"

text \<open>The tokens of a serialized note, and of the notes of an array between its brackets.\<close>

definition note_tokens :: "Note \<Rightarrow> token list" where
  "note_tokens n =
     [TLBrace, TString (js ''id''), TColon, TString (id_note n), TComma,
      TString (js ''content''), TColon, TString (content n), TComma,
      TString (js ''createdAt''), TColon, TString (createdAt n), TComma,
      TString (js ''updatedAt''), TColon, TString (updatedAt n), TRBrace]"

fun notes_tokens :: "Note list \<Rightarrow> token list" where
  "notes_tokens [] = []"
| "notes_tokens [n] = note_tokens n"
| "notes_tokens (n # m # ms) = note_tokens n @ TComma # notes_tokens (m # ms)"


section \<open>Basic facts\<close>

lemma js_lits:
  "js '''' = []" "js ''ADD'' \<noteq> []" "js ''EDIT'' \<noteq> []" "js ''VIEW'' \<noteq> []"
  "[] \<noteq> js ''ADD''" "[] \<noteq> js ''EDIT''" "[] \<noteq> js ''VIEW''"
  "js ''ADD'' \<noteq> js ''EDIT''" "js ''ADD'' \<noteq> js ''VIEW''" "js ''EDIT'' \<noteq> js ''VIEW''"
  "js ''EDIT'' \<noteq> js ''ADD''" "js ''VIEW'' \<noteq> js ''ADD''" "js ''VIEW'' \<noteq> js ''EDIT''"
  by (simp_all add: js_def)

lemma set_get [simp]:
  "modal (setModal m s) = m"
  "modal (setValue v s) = modal s"
  "modal (setNotes ns s) = modal s"
  "modal (setMarkdownMode b s) = modal s"
  "notes (setModal m s) = notes s"
  "notes (setValue v s) = notes s"
  "notes (setNotes ns s) = ns"
  "notes (setMarkdownMode b s) = notes s"
  "form (setModal m s) = form s"
  "form (setValue v s) = \<lparr>Form.content = v\<rparr>"
  "form (setNotes ns s) = form s"
  "form (setMarkdownMode b s) = form s"
  by (simp_all add: setModal_def setValue_def setNotes_def setMarkdownMode_def)

lemma find_split:
  "find P xs = Some x \<Longrightarrow> \<exists>pre post. xs = pre @ x # post \<and> P x \<and> (\<forall>y\<in>set pre. \<not> P y)"
proof (induction xs)
  case Nil
  then show ?case by simp
next
  case (Cons a xs)
  show ?case
  proof (cases "P a")
    case True
    with Cons.prems have "a = x" by simp
    with True have "a # xs = [] @ x # xs \<and> P x \<and> (\<forall>y\<in>set []. \<not> P y)" by simp
    then show ?thesis by blast
  next
    case False
    with Cons.prems have "find P xs = Some x" by simp
    from Cons.IH [OF this] obtain pre post
      where "xs = pre @ x # post" "P x" "\<forall>y\<in>set pre. \<not> P y" by blast
    with False have "a # xs = (a # pre) @ x # post \<and> P x \<and> (\<forall>y\<in>set (a # pre). \<not> P y)"
      by simp
    then show ?thesis by blast
  qed
qed

lemma find_in_set: "find P xs = Some x \<Longrightarrow> x \<in> set xs \<and> P x"
  by (induction xs) (auto split: if_splits)

lemma find_present: "i \<in> id_note ` set ns \<Longrightarrow> \<exists>n. find (\<lambda>note. id_note note = i) ns = Some n"
  by (cases "find (\<lambda>note. id_note note = i) ns") (auto simp: find_None_iff)

lemma filter_other_ids:
  "i \<notin> id_note ` set xs \<Longrightarrow> filter (\<lambda>note. id_note note \<noteq> i) xs = xs"
  by (induction xs) auto

lemma distinct_filter_id:
  assumes "distinct (map id_note (pre @ n # post))"
  shows "filter (\<lambda>note. id_note note \<noteq> id_note n) (pre @ n # post) = pre @ post"
  using assms by (simp add: filter_other_ids)

lemma distinct_filter_ids:
  "distinct (map id_note xs) \<Longrightarrow> distinct (map id_note (filter P xs))"
  by (simp add: distinct_map_filter)

lemma editNote_found:
  assumes "find (\<lambda>note. id_note note = i) ns = Some n"
  shows "editNote i c date ns
           = Inr (n\<lparr>content := c, updatedAt := date\<rparr> # filter (\<lambda>note. id_note note \<noteq> i) ns)"
  using assms by (simp add: editNote_def)

lemma editNote_distinct:
  assumes "distinct (map id_note ns)" and "editNote i c date ns = Inr ns'"
  shows "distinct (map id_note ns')"
proof (cases "find (\<lambda>note. id_note note = i) ns")
  case None
  with assms(2) show ?thesis by (simp add: editNote_def)
next
  case (Some n)
  then have n: "id_note n = i" by (auto dest: find_in_set)
  from assms(2) have ns': "ns' = n\<lparr>content := c, updatedAt := date\<rparr> # filter (\<lambda>note. id_note note \<noteq> i) ns"
    by (simp add: editNote_found [OF Some])
  have "i \<notin> id_note ` set (filter (\<lambda>note. id_note note \<noteq> i) ns)" by auto
  with assms(1) n show ?thesis unfolding ns' by (simp add: distinct_filter_ids)
qed

lemma after_distinct:
  assumes "distinct (map id_note ns)" and "fresh_op x ns"
  shows "distinct (map id_note (after x ns))"
proof (cases x)
  case (Add uuid date c)
  with assms show ?thesis by (simp add: after_def addNote_def)
next
  case (Edit i c date)
  with assms(1) show ?thesis
    by (auto simp: after_def split: sum.splits dest: editNote_distinct)
next
  case (Delete i)
  with assms(1) show ?thesis by (simp add: after_def deleteNote_def distinct_filter_ids)
qed

lemma modal_ok_literals:
  "modal_ok closed"
  "modal_ok \<lparr>type = js ''ADD'', data = None\<rparr>"
  "modal_ok \<lparr>type = js ''EDIT'', data = Some d\<rparr>"
  "modal_ok \<lparr>type = js ''VIEW'', data = Some d\<rparr>"
  by (simp_all add: modal_ok_def closed_def js_lits)

lemma handleForm_Inr:
  "handleForm uuid date d s = Inr s' \<Longrightarrow>
     modal s' = closed \<and> form s' = \<lparr>Form.content = js ''''\<rparr>"
  by (auto simp: handleForm_def split: sum.splits)

lemma handler_modal:
  assumes "modal_ok (modal s)" and "handler ev s = Inr s'"
  shows "modal_ok (modal s')"
proof (cases ev)
  case (Submit uuid date)
  with assms(2) have "modal s' = closed" by (auto dest: handleForm_Inr)
  then show ?thesis by (simp add: modal_ok_literals)
next
  case ClickEdit
  with assms(2) obtain d where "s' = handleEdit d s"
    by (auto split: option.splits)
  then show ?thesis by (simp add: handleEdit_def modal_ok_literals)
qed (use assms in \<open>auto simp: modal_ok_literals handleAdd_def handleDelete_def\<close>)

lemma dispatch_modal:
  "modal_ok (modal s) \<Longrightarrow> modal_ok (modal (dispatch ev s))"
  by (cases "handler ev s") (auto simp: dispatch_def dest: handler_modal)

lemma handler_selected:
  assumes "\<And>n. data (modal s) = Some n \<Longrightarrow> n \<in> set (notes s)"
    and "rendered s ev" and "handler ev s = Inr s'" and "data (modal s') = Some n"
  shows "n \<in> set (notes s')"
proof (cases ev)
  case (Submit uuid date)
  with assms(3) have "modal s' = closed" by (auto dest: handleForm_Inr)
  with assms(4) show ?thesis by (simp add: closed_def)
next
  case ClickEdit
  with assms(3) obtain d where "data (modal s) = Some d" "s' = handleEdit d s"
    by (auto split: option.splits)
  with assms(1,4) show ?thesis by (auto simp: handleEdit_def)
qed (use assms in \<open>auto simp: closed_def handleAdd_def handleDelete_def\<close>)

text \<open>
  While the edit or the view modal is up, the note attached to it is one of the notes of
  the collection: every handler that changes the collection closes the modal.
\<close>

definition selected_ok :: "App \<Rightarrow> bool" where
  "selected_ok s = (\<forall>n. data (modal s) = Some n \<longrightarrow> n \<in> set (notes s))"

lemma dispatch_selected:
  assumes "selected_ok s" and "rendered s ev"
  shows "selected_ok (dispatch ev s)"
proof (cases "handler ev s")
  case (Inl e)
  with assms(1) show ?thesis by (simp add: dispatch_def)
next
  case (Inr s')
  have "n \<in> set (notes s')" if "data (modal s') = Some n" for n
    using handler_selected [OF _ assms(2) Inr that] assms(1) by (simp add: selected_ok_def)
  with Inr show ?thesis by (simp add: dispatch_def selected_ok_def)
qed

text \<open>An invariant of the steps that holds at the start holds after a run.\<close>

lemma events_invariant:
  assumes "\<And>s ev. P s \<Longrightarrow> rendered s ev \<Longrightarrow> P (dispatch ev s)"
  shows "P s0 \<Longrightarrow> events evs s0 = Some s \<Longrightarrow> P s"
proof (induction evs arbitrary: s0)
  case Nil
  then show ?case by simp
next
  case (Cons ev evs)
  from Cons.prems(2) have r: "rendered s0 ev" and e: "events evs (dispatch ev s0) = Some s"
    by (simp_all split: if_splits)
  from assms [OF Cons.prems(1) r] e show ?case by (rule Cons.IH)
qed

lemma selected_in_notes:
  assumes "events evs (initial ns) = Some s" and "data (modal s) = Some n"
  shows "n \<in> set (notes s)"
proof -
  have "selected_ok (initial ns)" by (simp add: selected_ok_def initial_def closed_def)
  with dispatch_selected have "selected_ok s"
    using assms(1) by (rule events_invariant)
  with assms(2) show ?thesis by (simp add: selected_ok_def)
qed

lemma events_modal_ok:
  assumes "events evs (initial ns) = Some s"
  shows "modal_ok (modal s)"
proof -
  have "modal_ok (modal (initial ns))" by (simp add: initial_def modal_ok_literals)
  with dispatch_modal show ?thesis
    using assms by (rule events_invariant [where P = "\<lambda>s. modal_ok (modal s)"])
qed

section \<open>Adding a note\<close>

text \<open>
  C2. For every collection and every content, after \<open>addNote\<close> the new note is at index 0,
  it carries the content given, its \<open>createdAt\<close> and \<open>updatedAt\<close> are equal, and the notes
  that were there before follow it, unchanged and in their order.
\<close>

theorem addNote_front:
  "addNote uuid date c ns ! 0 = \<lparr>id_note = uuid, content = c, createdAt = date, updatedAt = date\<rparr>
   \<and> createdAt (addNote uuid date c ns ! 0) = updatedAt (addNote uuid date c ns ! 0)
   \<and> drop 1 (addNote uuid date c ns) = ns
   \<and> length (addNote uuid date c ns) = Suc (length ns)"
  by (simp add: addNote_def)

section \<open>Distinct ids\<close>

text \<open>
  C1. Starting from a collection with pairwise distinct ids, after every sequence of
  add, edit and delete calls in which each generated id is fresh, the ids of the
  collection are pairwise distinct.
\<close>

theorem run_distinct_ids:
  "distinct (map id_note ns) \<Longrightarrow> fresh xs ns \<Longrightarrow> distinct (map id_note (run xs ns))"
  by (induction xs arbitrary: ns) (auto simp: after_distinct)

theorem run_distinct_ids_witness:
  "distinct (map id_note
     [\<lparr>id_note = js ''1'', content = js ''a'', createdAt = js ''t0'', updatedAt = js ''t0''\<rparr>])
   \<and> fresh [Add (js ''2'') (js ''t1'') (js ''b''), Edit (js ''1'') (js ''c'') (js ''t2''),
        Edit (js ''7'') (js ''d'') (js ''t3''), Delete (js ''2'')]
       [\<lparr>id_note = js ''1'', content = js ''a'', createdAt = js ''t0'', updatedAt = js ''t0''\<rparr>]
   \<and> distinct (map id_note
       (run [Add (js ''2'') (js ''t1'') (js ''b''), Edit (js ''1'') (js ''c'') (js ''t2''),
             Edit (js ''7'') (js ''d'') (js ''t3''), Delete (js ''2'')]
          [\<lparr>id_note = js ''1'', content = js ''a'', createdAt = js ''t0'', updatedAt = js ''t0''\<rparr>]))"
proof -
  let ?ns = "[\<lparr>id_note = js ''1'', content = js ''a'', createdAt = js ''t0'', updatedAt = js ''t0''\<rparr>]"
  let ?xs = "[Add (js ''2'') (js ''t1'') (js ''b''), Edit (js ''1'') (js ''c'') (js ''t2''),
              Edit (js ''7'') (js ''d'') (js ''t3''), Delete (js ''2'')]"
  have d: "distinct (map id_note ?ns)" by simp
  have f: "fresh ?xs ?ns"
    by (simp add: after_def addNote_def editNote_def deleteNote_def js_def)
  from run_distinct_ids [OF d f] d f show ?thesis by simp
qed

section \<open>Deleting a note\<close>

text \<open>
  C5. In a collection with pairwise distinct ids, \<open>deleteNote\<close> returns a collection and
  never an error. When a note has the id, exactly that note is cut out, the notes before
  and after it stay as they are and in their order, and the length goes down by one.
  When no note has the id, the collection is returned as it is.
\<close>

theorem deleteNote_exact:
  assumes "distinct (map id_note ns)"
  shows "(i \<in> id_note ` set ns \<longrightarrow>
            (\<exists>pre n post. ns = pre @ n # post \<and> id_note n = i \<and> deleteNote i ns = pre @ post)
            \<and> Suc (length (deleteNote i ns)) = length ns)
         \<and> (i \<notin> id_note ` set ns \<longrightarrow>
            deleteNote i ns = ns \<and> length (deleteNote i ns) = length ns)"
proof (intro conjI impI)
  assume "i \<in> id_note ` set ns"
  then obtain n where "find (\<lambda>note. id_note note = i) ns = Some n"
    using find_present by blast
  then obtain pre post where split: "ns = pre @ n # post" "id_note n = i"
    by (auto dest: find_split)
  with assms have del: "deleteNote i ns = pre @ post"
    unfolding deleteNote_def using distinct_filter_id [of pre n post] by simp
  with split show "\<exists>pre n post. ns = pre @ n # post \<and> id_note n = i \<and> deleteNote i ns = pre @ post"
    by blast
  from del split show "Suc (length (deleteNote i ns)) = length ns" by simp
next
  assume "i \<notin> id_note ` set ns"
  then show "deleteNote i ns = ns" "length (deleteNote i ns) = length ns"
    by (simp_all add: deleteNote_def filter_other_ids)
qed

theorem deleteNote_exact_witness:
  "distinct (map id_note
     [\<lparr>id_note = js ''1'', content = js ''a'', createdAt = js ''t0'', updatedAt = js ''t0''\<rparr>,
      \<lparr>id_note = js ''2'', content = js ''b'', createdAt = js ''t1'', updatedAt = js ''t1''\<rparr>])
   \<and> js ''1'' \<in> id_note ` set
     [\<lparr>id_note = js ''1'', content = js ''a'', createdAt = js ''t0'', updatedAt = js ''t0''\<rparr>,
      \<lparr>id_note = js ''2'', content = js ''b'', createdAt = js ''t1'', updatedAt = js ''t1''\<rparr>]
   \<and> Suc (length (deleteNote (js ''1'')
     [\<lparr>id_note = js ''1'', content = js ''a'', createdAt = js ''t0'', updatedAt = js ''t0''\<rparr>,
      \<lparr>id_note = js ''2'', content = js ''b'', createdAt = js ''t1'', updatedAt = js ''t1''\<rparr>])) = 2
   \<and> js ''nonexistent-id'' \<notin> id_note ` set
     [\<lparr>id_note = js ''1'', content = js ''a'', createdAt = js ''t0'', updatedAt = js ''t0''\<rparr>,
      \<lparr>id_note = js ''2'', content = js ''b'', createdAt = js ''t1'', updatedAt = js ''t1''\<rparr>]
   \<and> deleteNote (js ''nonexistent-id'')
     [\<lparr>id_note = js ''1'', content = js ''a'', createdAt = js ''t0'', updatedAt = js ''t0''\<rparr>,
      \<lparr>id_note = js ''2'', content = js ''b'', createdAt = js ''t1'', updatedAt = js ''t1''\<rparr>]
     = [\<lparr>id_note = js ''1'', content = js ''a'', createdAt = js ''t0'', updatedAt = js ''t0''\<rparr>,
        \<lparr>id_note = js ''2'', content = js ''b'', createdAt = js ''t1'', updatedAt = js ''t1''\<rparr>]"
proof -
  let ?ns = "[\<lparr>id_note = js ''1'', content = js ''a'', createdAt = js ''t0'', updatedAt = js ''t0''\<rparr>,
              \<lparr>id_note = js ''2'', content = js ''b'', createdAt = js ''t1'', updatedAt = js ''t1''\<rparr>]"
  have d: "distinct (map id_note ?ns)" by (simp add: js_def)
  have p: "js ''1'' \<in> id_note ` set ?ns" by simp
  have a: "js ''nonexistent-id'' \<notin> id_note ` set ?ns" by (simp add: js_def)
  from deleteNote_exact [OF d, of "js ''1''"] deleteNote_exact [OF d, of "js ''nonexistent-id''"] d p a
  show ?thesis by simp
qed

section \<open>Editing a note\<close>

text \<open>
  C8. When the collection has a note with id \<open>i\<close>, \<open>editNote\<close> succeeds; the note at the
  front of the result is the first note with that id, with its \<open>id_note\<close> and \<open>createdAt\<close>
  as before and only \<open>content\<close> and \<open>updatedAt\<close> set anew; the notes behind it are the notes
  with another id, each exactly the record it was.
\<close>

theorem editNote_frame:
  assumes "i \<in> id_note ` set ns"
  shows "\<exists>n e. find (\<lambda>note. id_note note = i) ns = Some n
           \<and> editNote i c date ns = Inr (e # filter (\<lambda>note. id_note note \<noteq> i) ns)
           \<and> id_note e = i \<and> id_note e = id_note n \<and> createdAt e = createdAt n
           \<and> e = n\<lparr>content := c, updatedAt := date\<rparr>
           \<and> set (filter (\<lambda>note. id_note note \<noteq> i) ns) = {m \<in> set ns. id_note m \<noteq> i}"
proof -
  from assms obtain n where f: "find (\<lambda>note. id_note note = i) ns = Some n"
    using find_present by blast
  then have "id_note n = i" by (auto dest: find_in_set)
  with f editNote_found [OF f, of c date] show ?thesis by auto
qed

theorem editNote_frame_witness:
  "js ''1'' \<in> id_note ` set
     [\<lparr>id_note = js ''2'', content = js ''b'', createdAt = js ''t1'', updatedAt = js ''t1''\<rparr>,
      \<lparr>id_note = js ''1'', content = js ''a'', createdAt = js ''t0'', updatedAt = js ''t0''\<rparr>]
   \<and> editNote (js ''1'') (js ''new text'') (js ''t2'')
     [\<lparr>id_note = js ''2'', content = js ''b'', createdAt = js ''t1'', updatedAt = js ''t1''\<rparr>,
      \<lparr>id_note = js ''1'', content = js ''a'', createdAt = js ''t0'', updatedAt = js ''t0''\<rparr>]
     = Inr [\<lparr>id_note = js ''1'', content = js ''new text'', createdAt = js ''t0'', updatedAt = js ''t2''\<rparr>,
            \<lparr>id_note = js ''2'', content = js ''b'', createdAt = js ''t1'', updatedAt = js ''t1''\<rparr>]"
proof -
  let ?ns = "[\<lparr>id_note = js ''2'', content = js ''b'', createdAt = js ''t1'', updatedAt = js ''t1''\<rparr>,
              \<lparr>id_note = js ''1'', content = js ''a'', createdAt = js ''t0'', updatedAt = js ''t0''\<rparr>]"
  have p: "js ''1'' \<in> id_note ` set ?ns" by simp
  have ne: "js ''2'' \<noteq> js ''1''" by (simp add: js_def)
  from editNote_frame [OF p, where c = "js ''new text''" and date = "js ''t2''"] p ne
  show ?thesis by auto
qed

text \<open>
  C3, as the code has it. In a collection with pairwise distinct ids that has a note with
  id \<open>i\<close>, \<open>editNote\<close> puts that note at index 0 with the new content and with \<open>updatedAt\<close>
  set to the clock reading of the edit, keeps the other notes in their order, and keeps
  the length. \<open>updatedAt\<close> is then greater than \<open>createdAt\<close> exactly when the clock reading
  is greater than \<open>createdAt\<close>.
\<close>

theorem editNote_to_front:
  assumes "distinct (map id_note ns)" and "i \<in> id_note ` set ns"
  shows "\<exists>pre n post e.
           ns = pre @ n # post \<and> id_note n = i
           \<and> e = n\<lparr>content := c, updatedAt := date\<rparr>
           \<and> editNote i c date ns = Inr (e # pre @ post)
           \<and> content e = c \<and> updatedAt e = date
           \<and> (createdAt e < updatedAt e) = (createdAt n < date)
           \<and> length (e # pre @ post) = length ns"
proof -
  from assms(2) obtain n where f: "find (\<lambda>note. id_note note = i) ns = Some n"
    using find_present by blast
  then obtain pre post where split: "ns = pre @ n # post" "id_note n = i"
    by (auto dest: find_split)
  with assms(1) have "filter (\<lambda>note. id_note note \<noteq> i) ns = pre @ post"
    using distinct_filter_id [of pre n post] by simp
  with editNote_found [OF f, of c date]
  have "editNote i c date ns = Inr (n\<lparr>content := c, updatedAt := date\<rparr> # pre @ post)"
    by simp
  with split show ?thesis by auto
qed

theorem editNote_to_front_witness:
  "distinct (map id_note
     [\<lparr>id_note = js ''2'', content = js ''b'', createdAt = js ''t1'', updatedAt = js ''t1''\<rparr>,
      \<lparr>id_note = js ''1'', content = js ''a'', createdAt = js ''t0'', updatedAt = js ''t0''\<rparr>])
   \<and> js ''1'' \<in> id_note ` set
     [\<lparr>id_note = js ''2'', content = js ''b'', createdAt = js ''t1'', updatedAt = js ''t1''\<rparr>,
      \<lparr>id_note = js ''1'', content = js ''a'', createdAt = js ''t0'', updatedAt = js ''t0''\<rparr>]
   \<and> (\<exists>e rest. editNote (js ''1'') (js ''new text'') (js ''t2'')
     [\<lparr>id_note = js ''2'', content = js ''b'', createdAt = js ''t1'', updatedAt = js ''t1''\<rparr>,
      \<lparr>id_note = js ''1'', content = js ''a'', createdAt = js ''t0'', updatedAt = js ''t0''\<rparr>]
     = Inr (e # rest) \<and> content e = js ''new text'' \<and> Suc (length rest) = 2)"
proof -
  let ?ns = "[\<lparr>id_note = js ''2'', content = js ''b'', createdAt = js ''t1'', updatedAt = js ''t1''\<rparr>,
              \<lparr>id_note = js ''1'', content = js ''a'', createdAt = js ''t0'', updatedAt = js ''t0''\<rparr>]"
  have d: "distinct (map id_note ?ns)" by (simp add: js_def)
  have p: "js ''1'' \<in> id_note ` set ?ns" by simp
  from editNote_to_front [OF d p, where c = "js ''new text''" and date = "js ''t2''"]
  obtain pre n post e where
    "editNote (js ''1'') (js ''new text'') (js ''t2'') ?ns = Inr (e # pre @ post)"
    "content e = js ''new text''" "length (e # pre @ post) = length ?ns"
    by blast
  then have "\<exists>e rest. editNote (js ''1'') (js ''new text'') (js ''t2'') ?ns = Inr (e # rest)
      \<and> content e = js ''new text'' \<and> Suc (length rest) = 2"
    by auto
  with d p show ?thesis by blast
qed

text \<open>
  C3 as the claim states it fails. \<open>updatedAt\<close> is whatever the clock reads at the edit:
  when the clock was set back after the note was created, the edited note has an
  \<open>updatedAt\<close> before its \<open>createdAt\<close> (and one equal to it when both readings fall in the
  same millisecond). And in an array in which two notes share the id, as storage may hold
  it, the edit drops the second one: the length goes from 2 to 1.
\<close>

theorem editNote_clock_counterexample:
  "editNote (js ''1'') (js ''new text'') (js ''2024-01-01T00:00:00.000Z'')
     [\<lparr>id_note = js ''1'', content = js ''a'',
       createdAt = js ''2024-01-01T00:00:05.000Z'', updatedAt = js ''2024-01-01T00:00:05.000Z''\<rparr>]
   = Inr [\<lparr>id_note = js ''1'', content = js ''new text'',
           createdAt = js ''2024-01-01T00:00:05.000Z'', updatedAt = js ''2024-01-01T00:00:00.000Z''\<rparr>]
   \<and> \<not> js ''2024-01-01T00:00:05.000Z'' < js ''2024-01-01T00:00:00.000Z''
   \<and> editNote (js ''1'') (js ''new text'') (js ''t2'')
     [\<lparr>id_note = js ''1'', content = js ''a'', createdAt = js ''t0'', updatedAt = js ''t0''\<rparr>,
      \<lparr>id_note = js ''1'', content = js ''b'', createdAt = js ''t1'', updatedAt = js ''t1''\<rparr>]
   = Inr [\<lparr>id_note = js ''1'', content = js ''new text'', createdAt = js ''t0'', updatedAt = js ''t2''\<rparr>]"
  by (simp add: editNote_def js_def)

section \<open>The modal controller\<close>

text \<open>
  C10. In every state that a run of events reaches from a first render, the modal type
  is one of \<^verbatim>\<open>''\<close>, \<^verbatim>\<open>'ADD'\<close>, \<^verbatim>\<open>'EDIT'\<close>, \<^verbatim>\<open>'VIEW'\<close>, and a note is attached exactly when the
  type is \<^verbatim>\<open>'EDIT'\<close> or \<^verbatim>\<open>'VIEW'\<close>.
\<close>

theorem modal_invariant:
  "events evs (initial ns) = Some s \<Longrightarrow>
     type (modal s) \<in> {js '''', js ''ADD'', js ''EDIT'', js ''VIEW''}
     \<and> (data (modal s) \<noteq> None) = (type (modal s) = js ''EDIT'' \<or> type (modal s) = js ''VIEW'')"
  using events_modal_ok [of evs ns s] by (simp add: modal_ok_def)

theorem modal_invariant_witness:
  "events [ClickCard \<lparr>id_note = js ''1'', content = js ''a'', createdAt = js ''t0'', updatedAt = js ''t0''\<rparr>,
           ClickEdit]
     (initial [\<lparr>id_note = js ''1'', content = js ''a'', createdAt = js ''t0'', updatedAt = js ''t0''\<rparr>])
   = Some
      \<lparr>notes = [\<lparr>id_note = js ''1'', content = js ''a'', createdAt = js ''t0'', updatedAt = js ''t0''\<rparr>],
       modal = \<lparr>type = js ''EDIT'', data = Some
         \<lparr>id_note = js ''1'', content = js ''a'', createdAt = js ''t0'', updatedAt = js ''t0''\<rparr>\<rparr>,
       markdownMode = True, form = \<lparr>Form.content = js ''a''\<rparr>\<rparr>
   \<and> type (modal
      \<lparr>notes = [\<lparr>id_note = js ''1'', content = js ''a'', createdAt = js ''t0'', updatedAt = js ''t0''\<rparr>],
       modal = \<lparr>type = js ''EDIT'', data = Some
         \<lparr>id_note = js ''1'', content = js ''a'', createdAt = js ''t0'', updatedAt = js ''t0''\<rparr>\<rparr>,
       markdownMode = True, form = \<lparr>Form.content = js ''a''\<rparr>\<rparr>)
     \<in> {js '''', js ''ADD'', js ''EDIT'', js ''VIEW''}"
proof -
  let ?n = "\<lparr>id_note = js ''1'', content = js ''a'', createdAt = js ''t0'', updatedAt = js ''t0''\<rparr>"
  let ?s = "\<lparr>notes = [?n], modal = \<lparr>type = js ''EDIT'', data = Some ?n\<rparr>,
             markdownMode = True, form = \<lparr>Form.content = js ''a''\<rparr>\<rparr>"
  have run: "events [ClickCard ?n, ClickEdit] (initial [?n]) = Some ?s"
    by (simp add: initial_def dispatch_def view_shown_def handleEdit_def setModal_def
        setValue_def)
  from modal_invariant [OF run] run show ?thesis by simp
qed

section \<open>Editing a note that is not there\<close>




section \<open>Leaving the form\<close>

text \<open>What submitting and Cancel do, for the parts of C9 that hold.\<close>

lemma submit_adding:
  assumes "type (modal s) = js ''ADD''"
  shows "handler (Submit uuid date) s
           = Inr (setModal closed (setValue (js '''')
                   (setNotes (addNote uuid date (Form.content (form s)) (notes s)) s)))"
  using assms by (simp add: handleForm_def)

lemma submit_editing:
  assumes "type (modal s) = js ''EDIT''" and "data (modal s) = Some n"
    and "editNote (id_note n) (Form.content (form s)) date (notes s) = Inr newNotes"
  shows "handler (Submit uuid date) s
           = Inr (setModal closed (setValue (js '''') (setNotes newNotes s)))"
  using assms by (simp add: handleForm_def js_lits)

text \<open>
  In a state that a run reaches, submitting never throws: the note attached to the edit
  modal is in the collection.
\<close>

lemma submit_after_run:
  assumes "events evs (initial ns) = Some s" and "rendered s (Submit uuid date)"
  shows "modal (dispatch (Submit uuid date) s) = closed
         \<and> form (dispatch (Submit uuid date) s) = \<lparr>Form.content = js ''''\<rparr>"
proof (cases "type (modal s) = js ''ADD''")
  case True
  from submit_adding [OF this, of uuid date] show ?thesis by (simp add: dispatch_def)
next
  case False
  with assms(2) have ty: "type (modal s) = js ''EDIT''" by (simp add: form_shown_def)
  with events_modal_ok [OF assms(1)] obtain n where n: "data (modal s) = Some n"
    by (auto simp: modal_ok_def)
  with assms(1) have "n \<in> set (notes s)" by (rule selected_in_notes)
  then have "id_note n \<in> id_note ` set (notes s)" by simp
  then obtain m where "find (\<lambda>note. id_note note = id_note n) (notes s) = Some m"
    using find_present by blast
  from submit_editing [OF ty n editNote_found [OF this], where uuid = uuid and date = date] show ?thesis
    by (simp add: dispatch_def)
qed

lemma cancel_discards:
  "modal (dispatch ClickCancel s) = closed
   \<and> form (dispatch ClickCancel s) = \<lparr>Form.content = js ''''\<rparr>"
  by (simp add: dispatch_def)

text \<open>
  C9 breaks on the click outside the form. After the add button and some typing, the
  overlay's handler closes the modal and leaves the typed content in the form values,
  where Cancel, in the same state, empties them; the add form opened next starts with the
  old content.
\<close>

theorem overlay_keeps_content:
  "events [ClickAdd, Input (js ''draft''), ClickOverlay] (initial [])
     = Some \<lparr>notes = [], modal = closed, markdownMode = True,
             form = \<lparr>Form.content = js ''draft''\<rparr>\<rparr>
   \<and> events [ClickAdd, Input (js ''draft''), ClickCancel] (initial [])
     = Some \<lparr>notes = [], modal = closed, markdownMode = True,
             form = \<lparr>Form.content = js ''''\<rparr>\<rparr>
   \<and> events [ClickAdd, Input (js ''draft''), ClickOverlay, ClickAdd] (initial [])
     = Some \<lparr>notes = [], modal = \<lparr>type = js ''ADD'', data = None\<rparr>, markdownMode = True,
             form = \<lparr>Form.content = js ''draft''\<rparr>\<rparr>"
  by (simp add: initial_def dispatch_def handleAdd_def form_shown_def setModal_def
      setValue_def js_lits)

section \<open>Facts about the JSON functions\<close>

lemma nat_below_16:
  "(k::nat) < 16 \<Longrightarrow> k = 0 \<or> k = 1 \<or> k = 2 \<or> k = 3 \<or> k = 4 \<or> k = 5 \<or> k = 6 \<or> k = 7
     \<or> k = 8 \<or> k = 9 \<or> k = 10 \<or> k = 11 \<or> k = 12 \<or> k = 13 \<or> k = 14 \<or> k = 15"
  by arith

lemma hex_value_hex_digit: "k < 16 \<Longrightarrow> hex_value (hex_digit k) = Some k"
proof -
  assume "k < 16"
  from nat_below_16 [OF this] show ?thesis
    by (elim disjE) (simp_all add: hex_value_def hex_digit_def)
qed

lemma hex4_digits:
  "((n div 4096 * 16 + n div 256 mod 16) * 16 + n div 16 mod 16) * 16 + n mod 16 = (n::nat)"
proof -
  have d1: "n div 16 div 16 = n div 256" by (simp add: div_mult2_eq [symmetric])
  have d2: "n div 256 div 16 = n div 4096" by (simp add: div_mult2_eq [symmetric])
  have "n div 4096 * 16 + n div 256 mod 16 = n div 256"
    using div_mult_mod_eq [of "n div 256" 16] by (simp only: d2)
  moreover have "n div 256 * 16 + n div 16 mod 16 = n div 16"
    using div_mult_mod_eq [of "n div 16" 16] by (simp only: d1)
  moreover have "n div 16 * 16 + n mod 16 = n" by (rule div_mult_mod_eq)
  ultimately show ?thesis by (simp only:)
qed

lemma hex4_UnicodeEscape:
  "hex4 (hex_digit (unat c div 4096)) (hex_digit (unat c div 256 mod 16))
        (hex_digit (unat c div 16 mod 16)) (hex_digit (unat c mod 16)) = Some (c :: 16 word)"
proof -
  have lt: "unat c < 16 * 4096" using unsigned_less [of c] by simp
  have b: "unat c div 4096 < 16" by (rule less_mult_imp_div_less [OF lt])
  have m: "unat c div 256 mod 16 < 16" "unat c div 16 mod 16 < 16" "unat c mod 16 < 16"
    by simp_all
  show ?thesis
    unfolding hex4_def
    by (simp only: hex_value_hex_digit [OF b] hex_value_hex_digit [OF m(1)]
          hex_value_hex_digit [OF m(2)] hex_value_hex_digit [OF m(3)] hex4_digits
          prod.case option.case of_nat_unat ucast_id)
qed

lemma lex_chars_plain:
  assumes "c \<noteq> 0x22" "c \<noteq> 0x5C" "\<not> c < 0x20"
  shows "lex_chars (c # rest) = map_option (\<lambda>(s, r). (c # s, r)) (lex_chars rest)"
  using assms by simp

lemma lex_chars_escape:
  assumes "e \<noteq> 0x75" "unescape e = Some u"
  shows "lex_chars (0x5C # e # rest) = map_option (\<lambda>(s, r). (u # s, r)) (lex_chars rest)"
  using assms by simp

lemma lex_chars_unicode:
  assumes "hex4 h1 h2 h3 h4 = Some u"
  shows "lex_chars (0x5C # 0x75 # h1 # h2 # h3 # h4 # rest)
           = map_option (\<lambda>(s, r). (u # s, r)) (lex_chars rest)"
  using assms by simp

lemma surrogate_plain:
  assumes "is_high_surrogate c \<or> is_low_surrogate c"
  shows "c \<noteq> 0x22 \<and> c \<noteq> 0x5C \<and> \<not> c < 0x20"
proof -
  from assms have "0xD800 \<le> unat c"
    by (auto simp: is_high_surrogate_def is_low_surrogate_def word_le_nat_alt)
  then have "unat c \<noteq> 0x22" "unat c \<noteq> 0x5C" "\<not> unat c < 0x20" by simp_all
  then show ?thesis by (auto simp: word_less_nat_alt)
qed

lemma lex_chars_two_char_escapes:
  "lex_chars (0x5C # 0x62 # rest) = map_option (\<lambda>(s, r). (0x08 # s, r)) (lex_chars rest)"
  "lex_chars (0x5C # 0x74 # rest) = map_option (\<lambda>(s, r). (0x09 # s, r)) (lex_chars rest)"
  "lex_chars (0x5C # 0x6E # rest) = map_option (\<lambda>(s, r). (0x0A # s, r)) (lex_chars rest)"
  "lex_chars (0x5C # 0x66 # rest) = map_option (\<lambda>(s, r). (0x0C # s, r)) (lex_chars rest)"
  "lex_chars (0x5C # 0x72 # rest) = map_option (\<lambda>(s, r). (0x0D # s, r)) (lex_chars rest)"
  "lex_chars (0x5C # 0x22 # rest) = map_option (\<lambda>(s, r). (0x22 # s, r)) (lex_chars rest)"
  "lex_chars (0x5C # 0x5C # rest) = map_option (\<lambda>(s, r). (0x5C # s, r)) (lex_chars rest)"
  by (rule lex_chars_escape; simp add: unescape_def)+

lemma lex_chars_UnicodeEscape:
  "lex_chars (UnicodeEscape c @ rest) = map_option (\<lambda>(s, r). (c # s, r)) (lex_chars rest)"
  unfolding UnicodeEscape_def append.simps
  by (rule lex_chars_unicode) (rule hex4_UnicodeEscape)

lemma lex_chars_quote_unit:
  "lex_chars (quote_unit c @ rest) = map_option (\<lambda>(s, r). (c # s, r)) (lex_chars rest)"
  by (simp add: quote_unit_def lex_chars_two_char_escapes lex_chars_UnicodeEscape
        lex_chars_plain del: lex_chars.simps)

lemma lex_chars_quote_units:
  "lex_chars (quote_units s @ 0x22 # rest) = Some (s, rest)"
proof (induction s rule: quote_units.induct)
  case 1
  show ?case by simp
next
  case (2 c)
  have "lex_chars (0x22 # rest) = Some ([], rest)" by simp
  then show ?case by (simp add: lex_chars_quote_unit del: lex_chars.simps)
next
  case (3 c d cs)
  show ?case
  proof (cases "is_high_surrogate c \<and> is_low_surrogate d")
    case True
    then have "quote_units (c # d # cs) = c # d # quote_units cs" by simp
    with True surrogate_plain [of c] surrogate_plain [of d] "3.IH"(1) [OF True] show ?thesis
      by (simp add: lex_chars_plain del: lex_chars.simps quote_units.simps)
  next
    case False
    then have "quote_units (c # d # cs) = quote_unit c @ quote_units (d # cs)"
      by (simp only: quote_units.simps if_False)
    with "3.IH"(2) [OF False] show ?thesis
      by (simp add: lex_chars_quote_unit del: lex_chars.simps quote_units.simps)
  qed
qed

lemma lex_string:
  "lex_chars cs = Some (s, rest) \<Longrightarrow> lex (0x22 # cs) = map_option (Cons (TString s)) (lex rest)"
  by (simp add: is_ws_def del: lex_chars.simps)

lemma lex_QuoteJSONString:
  "lex (QuoteJSONString s @ rest) = map_option (Cons (TString s)) (lex rest)"
  unfolding QuoteJSONString_def
  using lex_string [OF lex_chars_quote_units [of s rest]] by simp

lemma lex_punct:
  "lex (0x7B # cs) = map_option (Cons TLBrace) (lex cs)"
  "lex (0x7D # cs) = map_option (Cons TRBrace) (lex cs)"
  "lex (0x5B # cs) = map_option (Cons TLBracket) (lex cs)"
  "lex (0x5D # cs) = map_option (Cons TRBracket) (lex cs)"
  "lex (0x3A # cs) = map_option (Cons TColon) (lex cs)"
  "lex (0x2C # cs) = map_option (Cons TComma) (lex cs)"
  by (simp_all add: is_ws_def del: lex_chars.simps)

lemma lex_stringify_note:
  "lex (stringify_note n @ rest) = map_option ((@) (note_tokens n)) (lex rest)"
  by (cases "lex rest")
     (simp_all add: stringify_note_def SerializeJSONObject_def lex_punct lex_QuoteJSONString
        note_tokens_def del: lex.simps lex_chars.simps)

lemma lex_join_notes:
  "lex (join (map stringify_note ns) @ rest) = map_option ((@) (notes_tokens ns)) (lex rest)"
proof (induction ns rule: notes_tokens.induct)
  case 1
  show ?case by (cases "lex rest") simp_all
next
  case (2 n)
  show ?case by (simp add: lex_stringify_note del: lex.simps lex_chars.simps)
next
  case (3 n m ms)
  then show ?case
    by (cases "lex rest")
       (simp_all add: lex_stringify_note lex_punct del: lex.simps lex_chars.simps)
qed

lemma lex_JSON_stringify:
  "lex (JSON_stringify ns) = Some (TLBracket # notes_tokens ns @ [TRBracket])"
proof -
  have "lex [0x5D] = Some [TRBracket]" by (simp add: lex_punct del: lex.simps) simp
  with lex_join_notes [of ns "[0x5D]"] show ?thesis
    by (simp add: JSON_stringify_def SerializeJSONArray_def lex_punct del: lex.simps)
qed

lemma parse_note:
  "parse_value st (note_tokens n @ ts) = parse_after st (json_of_note n) ts"
  by (simp add: note_tokens_def json_of_note_def)

lemma notes_tokens_start: "ns \<noteq> [] \<Longrightarrow> \<exists>ts. notes_tokens ns = TLBrace # ts"
  by (induction ns rule: notes_tokens.induct) (simp_all add: note_tokens_def)

lemma parse_notes:
  "ns \<noteq> [] \<Longrightarrow>
   parse_value (InArray vs # st) (notes_tokens ns @ TRBracket # ts)
     = parse_after st (JArray (vs @ map json_of_note ns)) ts"
proof (induction ns arbitrary: vs rule: notes_tokens.induct)
  case 1
  then show ?case by simp
next
  case (2 n)
  show ?case by (simp add: parse_note del: parse_value.simps)
next
  case (3 n m ms)
  from "3.IH" [of "vs @ [json_of_note n]"] show ?case
    by (simp add: parse_note del: parse_value.simps)
qed

lemma parse_tokens:
  "parse_value [] (TLBracket # notes_tokens ns @ [TRBracket]) = Some (json_of_notes ns)"
proof (cases "ns = []")
  case True
  then show ?thesis by (simp add: json_of_notes_def)
next
  case False
  then obtain ts where ts: "notes_tokens ns = TLBrace # ts"
    using notes_tokens_start by blast
  have "parse_value [] (TLBracket # notes_tokens ns @ [TRBracket])
          = parse_value [InArray []] (notes_tokens ns @ [TRBracket])"
    by (simp add: ts)
  also have "\<dots> = parse_after [] (JArray ([] @ map json_of_note ns)) []"
    using False by (rule parse_notes)
  finally show ?thesis by (simp add: json_of_notes_def)
qed

lemma JSON_parse_stringify: "JSON_parse (JSON_stringify ns) = Inr (json_of_notes ns)"
  by (simp add: JSON_parse_def lex_JSON_stringify parse_tokens del: parse_value.simps)

lemma note_keys:
  "js ''id'' \<noteq> js ''content''" "js ''id'' \<noteq> js ''createdAt''" "js ''id'' \<noteq> js ''updatedAt''"
  "js ''content'' \<noteq> js ''createdAt''" "js ''content'' \<noteq> js ''updatedAt''"
  "js ''createdAt'' \<noteq> js ''updatedAt''"
  by (simp_all add: js_def)

lemma as_note_json_of_note: "as_note (json_of_note n) = Some n"
  by (simp add: json_of_note_def property_def note_keys note_keys [symmetric])

lemma as_notes_json_of_notes: "as_notes (json_of_notes ns) = Some ns"
  by (induction ns) (simp_all add: json_of_notes_def as_note_json_of_note)

lemma load_JSON_stringify: "load (Some (JSON_stringify ns)) = Inr (json_of_notes ns)"
  by (simp add: load_def JSON_parse_stringify json_of_notes_def)

lemma JSON_parse_null: "JSON_parse (js ''null'') = Inr JNull"
  by (simp add: JSON_parse_def js_def is_ws_def is_digit_def)

lemma JSON_parse_empty: "JSON_parse (js '''') = Inl SyntaxError"
  by (simp add: JSON_parse_def js_def)

lemma JSON_parse_open: "JSON_parse (js ''[{'') = Inl SyntaxError"
  by (simp add: JSON_parse_def js_def is_ws_def)

lemma JSON_parse_word: "JSON_parse (js ''notes'') = Inl SyntaxError"
  by (simp add: JSON_parse_def js_def is_ws_def is_digit_def)

lemma JSON_parse_zero: "JSON_parse (js ''0'') = Inr (JNumber 0 0)"
  by (simp add: JSON_parse_def js_def is_ws_def is_digit_def lex_number_def lex_fraction_def
      lex_exponent_def digits_value_def)

lemma JSON_parse_error: "isl (JSON_parse source) \<Longrightarrow> JSON_parse source = Inl SyntaxError"
  by (auto simp: JSON_parse_def split: option.splits)

lemma as_notes_empty: "as_notes (json_of_notes []) = Some []"
  by (simp add: json_of_notes_def)

section \<open>Saving and loading\<close>

text \<open>
  C6. For every collection of notes, loading what was saved gives back the array of the
  same notes: the same number of objects in the same order, each with the four string
  properties of its note, code unit for code unit; read as a \<^verbatim>\<open>Note[]\<close> it is the
  collection that was saved, and the component starts on it. (The capacity of the storage
  is not part of the model: \<^verbatim>\<open>setItem\<close> is taken to succeed.)
\<close>

theorem load_save:
  "load (save ns) = Inr (json_of_notes ns)
   \<and> as_notes (json_of_notes ns) = Some ns
   \<and> first_render (save ns) = Inr (Some (initial ns))"
proof -
  have l: "load (save ns) = Inr (json_of_notes ns)"
    by (simp add: save_def load_JSON_stringify)
  then have "first_render (save ns) = Inr (Some (initial ns))"
    by (simp add: first_render_def as_notes_json_of_notes)
  with l show ?thesis by (simp add: as_notes_json_of_notes)
qed

text \<open>
  C7, as the code has it. With the slot absent, \<open>load\<close> returns the empty collection, no
  error is raised on the way, and the component starts on it. A stored text that
  \<^verbatim>\<open>JSON.parse\<close> rejects, the empty text included, makes \<open>load\<close> throw the SyntaxError, and
  the first render with it: the fallback \<^verbatim>\<open>|| []\<close> applies to a parsed value that is falsy
  and to nothing else.
\<close>

theorem load_cases:
  "load None = Inr (json_of_notes [])
   \<and> first_render None = Inr (Some (initial []))
   \<and> (isl (JSON_parse source) \<longrightarrow>
        load (Some source) = Inl SyntaxError \<and> first_render (Some source) = Inl SyntaxError)
   \<and> (\<not> isl (JSON_parse source) \<longrightarrow>
        load (Some source)
          = Inr (if ToBoolean (projr (JSON_parse source)) then projr (JSON_parse source)
                 else json_of_notes []))
   \<and> JSON_parse (js '''') = Inl SyntaxError"
proof -
  have n: "load None = Inr (json_of_notes [])"
    by (simp add: load_def JSON_parse_null json_of_notes_def)
  then have f: "first_render None = Inr (Some (initial []))"
    by (simp add: first_render_def as_notes_empty)
  have e: "load (Some source) = Inl SyntaxError \<and> first_render (Some source) = Inl SyntaxError"
    if "isl (JSON_parse source)"
    using JSON_parse_error [OF that] by (simp add: load_def first_render_def)
  have v: "load (Some source)
          = Inr (if ToBoolean (projr (JSON_parse source)) then projr (JSON_parse source)
                 else json_of_notes [])" if "\<not> isl (JSON_parse source)"
    using that by (cases "JSON_parse source") (simp_all add: load_def json_of_notes_def)
  from n f e v JSON_parse_empty show ?thesis by blast
qed

theorem load_cases_witness:
  "isl (JSON_parse (js '''')) \<and> load (Some (js '''')) = Inl SyntaxError
   \<and> first_render (Some (js '''')) = Inl SyntaxError
   \<and> \<not> isl (JSON_parse (js ''0'')) \<and> load (Some (js ''0'')) = Inr (json_of_notes [])"
proof -
  have a: "isl (JSON_parse (js ''''))" by (simp add: JSON_parse_empty)
  have b: "\<not> isl (JSON_parse (js ''0''))" by (simp add: JSON_parse_zero)
  have c: "\<not> ToBoolean (projr (JSON_parse (js ''0'')))"
    by (simp add: JSON_parse_zero number_is_zero_def)
  from load_cases [of "js ''''"] load_cases [of "js ''0''"] a b c show ?thesis by simp
qed

text \<open>
  C7 as the claim states it fails: with the empty text in the slot, or with a text cut
  off after \<^verbatim>\<open>[{\<close>, or with a text that is no JSON at all, \<open>load\<close> throws and returns no
  collection, and the first render throws with it.
\<close>

theorem load_malformed_counterexample:
  "load (Some (js '''')) = Inl SyntaxError
   \<and> load (Some (js ''[{'')) = Inl SyntaxError
   \<and> load (Some (js ''notes'')) = Inl SyntaxError
   \<and> first_render (Some (js '''')) = Inl SyntaxError
   \<and> first_render (Some (js '''')) \<noteq> Inr (Some (initial []))"
  by (simp add: first_render_def load_def JSON_parse_empty JSON_parse_open JSON_parse_word)

end
